theory Spec2Isabelle
  imports Complex_Main "HOL-Library.AList" "HOL-Library.Product_Lexorder"
begin

section \<open>Data model\<close>

text \<open>
  A coordinate is a pair of Python integers, which are unbounded: \<open>int \<times> int\<close>.
\<close>

type_synonym pos = "int \<times> int"

text \<open>
  Modelled from the spec: the module \<^verbatim>\<open>grid_defs\<close>, which declares \<^verbatim>\<open>Dim\<close>,
  \<^verbatim>\<open>Grid\<close> and \<^verbatim>\<open>Neighbours\<close>, is not among the sources. The spec gives
  \<^verbatim>\<open>Dim\<close> as the pair (width, height), \<^verbatim>\<open>Grid\<close> as \<^verbatim>\<open>dim\<close> with the set
  \<^verbatim>\<open>cells\<close> of live coordinates, and \<^verbatim>\<open>Neighbours\<close> as the pair of sets
  (alive, dead). \<^verbatim>\<open>main.py\<close> builds them positionally in this order and reads the fields
  by these names.
\<close>

record Dim =
  width :: int
  height :: int

record Grid =
  dim :: Dim
  cells :: "pos set"

record Neighbours =
  alive :: "pos set"
  dead :: "pos set"

text \<open>
  The only built-in operation of \<^verbatim>\<open>main.py\<close> that can raise is \<^verbatim>\<open>set.remove\<close>,
  which raises \<^verbatim>\<open>KeyError\<close> when the element is not in the set.
\<close>

datatype error = KeyError

definition set_remove :: "pos \<Rightarrow> pos set \<Rightarrow> error + pos set" where
  "set_remove p s = (if p \<in> s then Inr (s - {p}) else Inl KeyError)"

text \<open>
  \<^verbatim>\<open>undead = defaultdict(int)\<close> is a dictionary from coordinates to counts that keeps
  its keys in insertion order: an association list. \<^verbatim>\<open>undead[pos] += 1\<close> reads the entry
  (0 when the key is missing), adds one and stores it: an existing key keeps its place, a new
  key goes to the end.
\<close>

type_synonym tally = "(pos \<times> int) list"

definition getitem_default :: "tally \<Rightarrow> pos \<Rightarrow> int" where
  "getitem_default undead pos = (case map_of undead pos of None \<Rightarrow> 0 | Some c \<Rightarrow> c)"

definition incr :: "pos \<Rightarrow> tally \<Rightarrow> tally" where
  "incr pos undead = AList.update pos (getitem_default undead pos + 1) undead"

text \<open>
  Python does not specify the order in which a \<^verbatim>\<open>for\<close> loop visits a set. The model
  visits the elements in ascending lexicographic order; \<open>for_each\<close> is the loop itself, over
  the list of elements to visit, and stops at the first exception.
\<close>

definition iter :: "pos set \<Rightarrow> pos list" where
  "iter s = sorted_list_of_set s"

fun for_each :: "('a \<Rightarrow> 's \<Rightarrow> error + 's) \<Rightarrow> 'a list \<Rightarrow> 's \<Rightarrow> error + 's" where
  "for_each body [] s = Inr s"
| "for_each body (x # xs) s =
     (case body x s of Inl e \<Rightarrow> Inl e | Inr s' \<Rightarrow> for_each body xs s')"

section \<open>Neighbour classifier\<close>

definition offsets :: "(int \<times> int) list" where
  "offsets = [(-1, -1), (0, -1), (1, -1), (-1, 0), (1, 0), (-1, 1), (0, 1), (1, 1)]"

definition get_neighbours :: "Grid \<Rightarrow> int \<Rightarrow> int \<Rightarrow> Neighbours" where
  "get_neighbours grid x y =
     (let possible_neighbours = set (map (\<lambda>(x_add, y_add). (x + x_add, y + y_add)) offsets);
          alive = (\<lambda>pos. (fst pos, snd pos)) ` Set.filter (\<lambda>pos. pos \<in> cells grid) possible_neighbours
      in \<lparr>alive = alive, dead = possible_neighbours - alive\<rparr>)"

section \<open>Rule engine\<close>

text \<open>
  The body of the \<^verbatim>\<open>for pos in dead_neighbours\<close> loop, which all four variants share.
\<close>

definition count_dead :: "pos set \<Rightarrow> tally \<Rightarrow> tally" where
  "count_dead dead_neighbours undead = fold incr (iter dead_neighbours) undead"

subsection \<open>Conway baseline\<close>

definition update_grid_body :: "Grid \<Rightarrow> pos \<Rightarrow> pos set \<times> tally \<Rightarrow> error + pos set \<times> tally" where
  "update_grid_body grid = (\<lambda>(x, y) (new_cells, undead).
     let nb = get_neighbours grid x y in
     case (if card (alive nb) \<notin> set [2, 3] then set_remove (x, y) new_cells else Inr new_cells) of
       Inl e \<Rightarrow> Inl e
     | Inr new_cells' \<Rightarrow> Inr (new_cells', count_dead (dead nb) undead))"

definition update_grid :: "Grid \<Rightarrow> error + Grid" where
  "update_grid grid =
     (case for_each (update_grid_body grid) (iter (cells grid)) (cells grid, []) of
        Inl e \<Rightarrow> Inl e
      | Inr (new_cells, undead) \<Rightarrow>
          Inr \<lparr>dim = dim grid,
               cells = fold (\<lambda>(pos, _) new_cells. insert (fst pos, snd pos) new_cells)
                         (filter (\<lambda>elem. snd elem = 3) undead) new_cells\<rparr>)"

subsection \<open>HighLife\<close>

definition update_grid_highlife_body ::
  "Grid \<Rightarrow> pos \<Rightarrow> pos set \<times> tally \<Rightarrow> error + pos set \<times> tally" where
  "update_grid_highlife_body grid = (\<lambda>(x, y) (new_cells, undead).
     let nb = get_neighbours grid x y in
     case (if card (alive nb) \<notin> set [2, 3] then set_remove (x, y) new_cells else Inr new_cells) of
       Inl e \<Rightarrow> Inl e
     | Inr new_cells' \<Rightarrow> Inr (new_cells', count_dead (dead nb) undead))"

definition update_grid_highlife :: "Grid \<Rightarrow> error + Grid" where
  "update_grid_highlife grid =
     (case for_each (update_grid_highlife_body grid) (iter (cells grid)) (cells grid, []) of
        Inl e \<Rightarrow> Inl e
      | Inr (new_cells, undead) \<Rightarrow>
          Inr \<lparr>dim = dim grid,
               cells = fold (\<lambda>(pos, count) new_cells.
                              if count \<in> set [3, 6] then insert (fst pos, snd pos) new_cells
                              else new_cells)
                         undead new_cells\<rparr>)"

subsection \<open>Day and Night\<close>

definition update_grid_day_night_body ::
  "Grid \<Rightarrow> pos \<Rightarrow> pos set \<times> tally \<Rightarrow> error + pos set \<times> tally" where
  "update_grid_day_night_body grid = (\<lambda>(x, y) (new_cells, undead).
     let nb = get_neighbours grid x y in
     case (if card (alive nb) \<notin> set [3, 4, 6, 7, 8] then set_remove (x, y) new_cells
           else Inr new_cells) of
       Inl e \<Rightarrow> Inl e
     | Inr new_cells' \<Rightarrow> Inr (new_cells', count_dead (dead nb) undead))"

definition update_grid_day_night :: "Grid \<Rightarrow> error + Grid" where
  "update_grid_day_night grid =
     (case for_each (update_grid_day_night_body grid) (iter (cells grid)) (cells grid, []) of
        Inl e \<Rightarrow> Inl e
      | Inr (new_cells, undead) \<Rightarrow>
          Inr \<lparr>dim = dim grid,
               cells = fold (\<lambda>(pos, count) new_cells.
                              if count \<in> set [3, 6, 7, 8] then insert (fst pos, snd pos) new_cells
                              else new_cells)
                         undead new_cells\<rparr>)"

subsection \<open>Seeds\<close>

text \<open>
  The loop of \<^verbatim>\<open>update_grid_seeds\<close> classifies the neighbours of each live cell and
  counts the dead ones; it has no call of \<^verbatim>\<open>new_cells.remove\<close>, so nothing in it can
  raise and \<^verbatim>\<open>new_cells\<close> stays the copy of \<^verbatim>\<open>grid.cells\<close> until the birth pass.
\<close>

definition update_grid_seeds_body :: "Grid \<Rightarrow> pos \<Rightarrow> tally \<Rightarrow> tally" where
  "update_grid_seeds_body grid = (\<lambda>(x, y) undead.
     let nb = get_neighbours grid x y in count_dead (dead nb) undead)"

definition update_grid_seeds :: "Grid \<Rightarrow> Grid" where
  "update_grid_seeds grid =
     (let new_cells = cells grid;
          undead = fold (update_grid_seeds_body grid) (iter (cells grid)) []
      in \<lparr>dim = dim grid,
          cells = fold (\<lambda>(pos, count) new_cells.
                         if count = 2 then insert (fst pos, snd pos) new_cells else new_cells)
                    undead new_cells\<rparr>)"

section \<open>Random grid generator\<close>

text \<open>
  \<^verbatim>\<open>random.random()\<close> reads and advances the generator of the \<^verbatim>\<open>random\<close> module. The
  state of that generator is modelled by the infinite sequence of the draws to come; a draw
  returns its head and leaves its tail. A draw and \<^verbatim>\<open>live_cell_probability\<close> are Python
  floats, which the function only compares with \<^verbatim>\<open><\<close>; on numbers that comparison is
  the exact order of the reals, so both are modelled as \<open>real\<close>.
\<close>

type_synonym rng = "nat \<Rightarrow> real"

definition random_random :: "rng \<Rightarrow> real \<times> rng" where
  "random_random draws = (draws 0, \<lambda>n. draws (Suc n))"

text \<open>\<^verbatim>\<open>range(n)\<close> is 0, 1, ..., n - 1, and empty when n is not positive.\<close>

definition py_range :: "int \<Rightarrow> int list" where
  "py_range n = [0..n - 1]"

definition generate_random_grid :: "Dim \<Rightarrow> real \<Rightarrow> rng \<Rightarrow> Grid \<times> rng" where
  "generate_random_grid dim' live_cell_probability draws =
     (let (cells, draws') =
            fold (\<lambda>x. fold (\<lambda>y (cells, draws).
                    let (r, draws') = random_random draws
                    in (if r < live_cell_probability then insert (x, y) cells else cells, draws'))
                  (py_range (height dim')))
              (py_range (width dim')) ({}, draws)
      in (\<lparr>dim = dim', cells = cells\<rparr>, draws'))"

section \<open>Specification vocabulary\<close>

text \<open>
  The Moore neighbourhood of a position: the positions at Chebyshev distance 1 from it.
\<close>

definition moore :: "pos \<Rightarrow> pos set" where
  "moore p = {q. max \<bar>fst q - fst p\<bar> \<bar>snd q - snd p\<bar> = 1}"

text \<open>The number of live cells in the Moore neighbourhood of a position.\<close>

definition live_count :: "Grid \<Rightarrow> pos \<Rightarrow> nat" where
  "live_count grid p = card (moore p \<inter> cells grid)"

text \<open>
  The next generation of a rule given by its survival and birth predicates: the live cells
  whose live-neighbour count satisfies \<open>surv\<close>, and the dead positions whose live-neighbour
  count satisfies \<open>birth\<close>.
\<close>

definition next_gen :: "(nat \<Rightarrow> bool) \<Rightarrow> (nat \<Rightarrow> bool) \<Rightarrow> Grid \<Rightarrow> pos set" where
  "next_gen surv birth grid =
     {p \<in> cells grid. surv (live_count grid p)} \<union> {p. p \<notin> cells grid \<and> birth (live_count grid p)}"

text \<open>
  The survival pass that the Conway, HighLife and Day and Night loops have in common, with
  the survival predicate as a parameter, and the counting loop alone.
\<close>

definition survival_body ::
  "(nat \<Rightarrow> bool) \<Rightarrow> Grid \<Rightarrow> pos \<Rightarrow> pos set \<times> tally \<Rightarrow> error + pos set \<times> tally" where
  "survival_body surv grid = (\<lambda>(x, y) (new_cells, undead).
     let nb = get_neighbours grid x y in
     case (if \<not> surv (card (alive nb)) then set_remove (x, y) new_cells else Inr new_cells) of
       Inl e \<Rightarrow> Inl e
     | Inr new_cells' \<Rightarrow> Inr (new_cells', count_dead (dead nb) undead))"

definition birth_pass :: "(int \<Rightarrow> bool) \<Rightarrow> tally \<Rightarrow> pos set \<Rightarrow> pos set" where
  "birth_pass birth undead new_cells =
     fold (\<lambda>(pos, count) new_cells. if birth count then insert (fst pos, snd pos) new_cells
                                     else new_cells) undead new_cells"

text \<open>
  The keys of the tally, and the counting loop of the survival pass alone: for each visited
  cell, every dead neighbour gets one more count.
\<close>

definition keys :: "tally \<Rightarrow> pos set" where
  "keys undead = fst ` set undead"

definition count_pass :: "Grid \<Rightarrow> pos list \<Rightarrow> tally \<Rightarrow> tally" where
  "count_pass grid xs undead = fold (\<lambda>p. count_dead (moore p - cells grid)) xs undead"

text \<open>
  A sequence of draws of \<^verbatim>\<open>random.random()\<close>: every draw lies in [0, 1). \<open>draw_cell\<close> is
  the body of the inner loop of \<^verbatim>\<open>generate_random_grid\<close>.
\<close>

definition unit_draws :: "rng \<Rightarrow> bool" where
  "unit_draws draws \<longleftrightarrow> (\<forall>n. 0 \<le> draws n \<and> draws n < 1)"

definition draw_cell :: "real \<Rightarrow> int \<Rightarrow> int \<Rightarrow> pos set \<times> rng \<Rightarrow> pos set \<times> rng" where
  "draw_cell p x = (\<lambda>y (cells, draws).
     let (r, draws') = random_random draws
     in (if r < p then insert (x, y) cells else cells, draws'))"

text \<open>
  Locality: every position of \<open>s\<close> is a live cell of the grid or a Moore neighbour of one.
\<close>

definition local_to :: "Grid \<Rightarrow> pos set \<Rightarrow> bool" where
  "local_to grid s \<longleftrightarrow> (\<forall>q\<in>s. q \<in> cells grid \<or> (\<exists>p\<in>cells grid. q \<in> moore p))"

section \<open>The neighbour classifier and the Moore neighbourhood\<close>

lemma moore_iff:
  "(a, b) \<in> moore (x, y) \<longleftrightarrow>
     (a = x - 1 \<or> a = x \<or> a = x + 1) \<and> (b = y - 1 \<or> b = y \<or> b = y + 1) \<and> (a, b) \<noteq> (x, y)"
  unfolding moore_def by (simp add: max_def) arith

lemma possible_neighbours_moore:
  "set (map (\<lambda>(x_add, y_add). (x + x_add, y + y_add)) offsets) = moore (x, y)"
proof (rule set_eqI)
  fix q :: pos
  obtain a b where q: "q = (a, b)" by (cases q)
  show "q \<in> set (map (\<lambda>(x_add, y_add). (x + x_add, y + y_add)) offsets) \<longleftrightarrow> q \<in> moore (x, y)"
    unfolding q moore_iff offsets_def by auto
qed

lemma moore_distinct:
  "distinct (map (\<lambda>(x_add, y_add). (x + x_add, y + y_add)) offsets)"
  unfolding offsets_def by simp

lemma finite_moore: "finite (moore p)"
proof -
  obtain x y where p: "p = (x, y)" by (cases p)
  show ?thesis unfolding p possible_neighbours_moore [symmetric] by (rule finite_set)
qed

lemma card_moore: "card (moore p) = 8"
proof -
  obtain x y where p: "p = (x, y)" by (cases p)
  have "card (moore p) = length (map (\<lambda>(x_add, y_add). (x + x_add, y + y_add)) offsets)"
    unfolding p possible_neighbours_moore [symmetric]
    by (rule distinct_card) (rule moore_distinct)
  then show ?thesis by (simp add: offsets_def)
qed

lemma moore_sym: "q \<in> moore p \<longleftrightarrow> p \<in> moore q"
  unfolding moore_def by (simp add: abs_minus_commute)

lemma moore_irrefl: "p \<notin> moore p"
  unfolding moore_def by simp

lemma get_neighbours_alive: "alive (get_neighbours g x y) = moore (x, y) \<inter> cells g"
  unfolding get_neighbours_def Let_def possible_neighbours_moore by auto

lemma get_neighbours_dead: "dead (get_neighbours g x y) = moore (x, y) - cells g"
  unfolding get_neighbours_def Let_def possible_neighbours_moore by auto

lemma card_alive: "card (alive (get_neighbours g x y)) = live_count g (x, y)"
  unfolding get_neighbours_alive live_count_def ..

section \<open>The tally of dead neighbours\<close>

text \<open>
  The lemmas on the loops hold for every duplicate-free enumeration of the set that is
  visited, so the grid that an update returns does not depend on the order the model fixes.
\<close>

lemma getitem_incr:
  "getitem_default (incr p ud) q = getitem_default ud q + (if q = p then 1 else 0)"
  unfolding incr_def getitem_default_def by (simp add: update_conv')

lemma keys_incr: "keys (incr p ud) = insert p (keys ud)"
  unfolding incr_def keys_def by (simp add: dom_update)

lemma distinct_incr: "distinct (map fst ud) \<Longrightarrow> distinct (map fst (incr p ud))"
  unfolding incr_def by (rule distinct_update)

lemma getitem_fold_incr:
  "distinct xs \<Longrightarrow>
   getitem_default (fold incr xs ud) q = getitem_default ud q + (if q \<in> set xs then 1 else 0)"
  by (induction xs arbitrary: ud) (auto simp: getitem_incr)

lemma keys_fold_incr: "keys (fold incr xs ud) = keys ud \<union> set xs"
  by (induction xs arbitrary: ud) (auto simp: keys_incr)

lemma distinct_fold_incr:
  "distinct (map fst ud) \<Longrightarrow> distinct (map fst (fold incr xs ud))"
  by (induction xs arbitrary: ud) (auto simp: distinct_incr)

lemma set_iter: "finite s \<Longrightarrow> set (iter s) = s"
  unfolding iter_def by simp

lemma distinct_iter: "distinct (iter s)"
  unfolding iter_def by simp

lemma getitem_count_dead:
  "finite d \<Longrightarrow>
   getitem_default (count_dead d ud) q = getitem_default ud q + (if q \<in> d then 1 else 0)"
  unfolding count_dead_def by (simp add: getitem_fold_incr distinct_iter set_iter)

lemma keys_count_dead: "finite d \<Longrightarrow> keys (count_dead d ud) = keys ud \<union> d"
  unfolding count_dead_def by (simp add: keys_fold_incr set_iter)

lemma distinct_count_dead:
  "distinct (map fst ud) \<Longrightarrow> distinct (map fst (count_dead d ud))"
  unfolding count_dead_def by (rule distinct_fold_incr)

lemma count_pass_Nil: "count_pass g [] ud = ud"
  unfolding count_pass_def by simp

lemma count_pass_Cons:
  "count_pass g (p # xs) ud = count_pass g xs (count_dead (moore p - cells g) ud)"
  unfolding count_pass_def by simp

lemma finite_dead: "finite (moore p - cells g)"
  by (simp add: finite_moore)

lemma getitem_count_pass:
  "distinct xs \<Longrightarrow>
   getitem_default (count_pass g xs ud) q
     = getitem_default ud q + int (card {p \<in> set xs. q \<in> moore p - cells g})"
proof (induction xs arbitrary: ud)
  case Nil
  then show ?case by (simp add: count_pass_Nil)
next
  case (Cons a xs)
  define S where "S = {p \<in> set xs. q \<in> moore p - cells g}"
  define b where "b \<longleftrightarrow> q \<in> moore a - cells g"
  have fin: "finite S" unfolding S_def by simp
  have notin: "a \<notin> S" using Cons.prems unfolding S_def by simp
  have split: "{p \<in> set (a # xs). q \<in> moore p - cells g} = (if b then insert a S else S)"
    unfolding S_def b_def by auto
  have "card {p \<in> set (a # xs). q \<in> moore p - cells g} = (if b then 1 else 0) + card S"
    unfolding split using fin notin by simp
  moreover have "getitem_default (count_pass g (a # xs) ud) q
      = getitem_default ud q + (if b then 1 else 0) + int (card S)"
    unfolding S_def b_def count_pass_Cons
    using Cons.prems by (simp add: Cons.IH getitem_count_dead finite_dead)
  ultimately show ?case by simp
qed

lemma keys_count_pass:
  "keys (count_pass g xs ud) = keys ud \<union> (\<Union>p\<in>set xs. moore p - cells g)"
  by (induction xs arbitrary: ud)
     (auto simp: count_pass_Nil count_pass_Cons keys_count_dead finite_dead)

lemma distinct_count_pass:
  "distinct (map fst ud) \<Longrightarrow> distinct (map fst (count_pass g xs ud))"
  by (induction xs arbitrary: ud)
     (auto simp: count_pass_Nil count_pass_Cons distinct_count_dead)

lemma survival_body_step:
  "p \<in> nc \<Longrightarrow>
   survival_body surv g p (nc, ud)
     = Inr (if surv (live_count g p) then nc else nc - {p}, count_dead (moore p - cells g) ud)"
  unfolding survival_body_def
  by (cases p) (simp add: Let_def card_alive get_neighbours_dead set_remove_def)

lemma survival_loop:
  "distinct xs \<Longrightarrow> set xs \<subseteq> nc \<Longrightarrow>
   for_each (survival_body surv g) xs (nc, ud)
     = Inr (nc - {p \<in> set xs. \<not> surv (live_count g p)}, count_pass g xs ud)"
proof (induction xs arbitrary: nc ud)
  case Nil
  then show ?case by (simp add: count_pass_Nil)
next
  case (Cons a xs)
  let ?nc = "if surv (live_count g a) then nc else nc - {a}"
  have a: "a \<in> nc" and d: "distinct xs" and sub: "set xs \<subseteq> ?nc"
    using Cons.prems by auto
  have "for_each (survival_body surv g) (a # xs) (nc, ud)
          = for_each (survival_body surv g) xs (?nc, count_dead (moore a - cells g) ud)"
    by (simp add: survival_body_step [OF a])
  also have "\<dots> = Inr (?nc - {p \<in> set xs. \<not> surv (live_count g p)},
                          count_pass g xs (count_dead (moore a - cells g) ud))"
    by (rule Cons.IH [OF d sub])
  also have "?nc - {p \<in> set xs. \<not> surv (live_count g p)}
               = nc - {p \<in> set (a # xs). \<not> surv (live_count g p)}"
    by auto
  finally show ?case by (simp add: count_pass_Cons)
qed

section \<open>The two passes of an update\<close>

lemma birth_pass_set:
  "birth_pass birth ud nc = nc \<union> {p. \<exists>c. (p, c) \<in> set ud \<and> birth c}"
  unfolding birth_pass_def
  by (induction ud arbitrary: nc) (auto split: if_splits)

lemma distinct_entry:
  assumes "distinct (map fst ud)"
  shows "(p, c) \<in> set ud \<longleftrightarrow> p \<in> keys ud \<and> getitem_default ud p = c"
proof
  assume "(p, c) \<in> set ud"
  then have "map_of ud p = Some c" and "p \<in> fst ` set ud"
    using assms by (simp_all add: image_iff) force
  then show "p \<in> keys ud \<and> getitem_default ud p = c"
    unfolding keys_def getitem_default_def by simp
next
  assume a: "p \<in> keys ud \<and> getitem_default ud p = c"
  then obtain c' where c': "map_of ud p = Some c'"
    unfolding keys_def by (metis map_of_eq_None_iff not_Some_eq)
  with a have "c' = c" unfolding getitem_default_def by simp
  with c' show "(p, c) \<in> set ud" by (simp add: map_of_SomeD)
qed

lemma birth_pass_keys:
  "distinct (map fst ud) \<Longrightarrow>
   birth_pass birth ud nc = nc \<union> {p \<in> keys ud. birth (getitem_default ud p)}"
  unfolding birth_pass_set by (simp add: distinct_entry)

lemma getitem_Nil: "getitem_default [] q = 0"
  unfolding getitem_default_def by simp

lemma keys_Nil: "keys [] = {}"
  unfolding keys_def by simp

lemma dead_count_live:
  "q \<notin> cells g \<Longrightarrow> {p \<in> cells g. q \<in> moore p - cells g} = moore q \<inter> cells g"
  using moore_sym [of q] by auto

lemma tally_entry:
  assumes fin: "finite (cells g)" and q: "q \<notin> cells g"
  shows "getitem_default (count_pass g (iter (cells g)) []) q = int (live_count g q)"
  unfolding getitem_count_pass [OF distinct_iter] set_iter [OF fin] dead_count_live [OF q]
    getitem_Nil live_count_def
  by simp

lemma tally_keys:
  assumes fin: "finite (cells g)"
  shows "keys (count_pass g (iter (cells g)) []) = {q. q \<notin> cells g \<and> live_count g q \<noteq> 0}"
proof -
  have pos: "live_count g q \<noteq> 0 \<longleftrightarrow> moore q \<inter> cells g \<noteq> {}" for q
    unfolding live_count_def using finite_moore [of q] by simp
  have "q \<in> (\<Union>p\<in>cells g. moore p - cells g) \<longleftrightarrow> q \<notin> cells g \<and> moore q \<inter> cells g \<noteq> {}" for q
    using moore_sym [of q] by auto
  then show ?thesis
    unfolding keys_count_pass keys_Nil set_iter [OF fin] pos by auto
qed

lemma tally_births:
  assumes fin: "finite (cells g)" and b0: "\<not> birth 0"
  shows "{p \<in> keys (count_pass g (iter (cells g)) []).
            birth (getitem_default (count_pass g (iter (cells g)) []) p)}
         = {p. p \<notin> cells g \<and> birth (int (live_count g p))}"
proof -
  have "birth (int (live_count g p)) \<Longrightarrow> live_count g p \<noteq> 0" for p
    using b0 by (cases "live_count g p = 0") auto
  then show ?thesis
    unfolding tally_keys [OF fin] using tally_entry [OF fin] by auto
qed

lemma rule_update:
  assumes fin: "finite (cells g)" and b0: "\<not> birth 0"
  shows "(case for_each (survival_body surv g) (iter (cells g)) (cells g, []) of
            Inl e \<Rightarrow> Inl e
          | Inr (new_cells, undead) \<Rightarrow>
              Inr \<lparr>dim = dim g, cells = birth_pass birth undead new_cells\<rparr>)
         = Inr \<lparr>dim = dim g, cells = next_gen surv (\<lambda>n. birth (int n)) g\<rparr>"
proof -
  have loop: "for_each (survival_body surv g) (iter (cells g)) (cells g, [])
      = Inr (cells g - {p \<in> set (iter (cells g)). \<not> surv (live_count g p)},
             count_pass g (iter (cells g)) [])"
    by (rule survival_loop) (simp_all add: distinct_iter set_iter fin)
  have d: "distinct (map fst (count_pass g (iter (cells g)) []))"
    by (rule distinct_count_pass) simp
  have "birth_pass birth (count_pass g (iter (cells g)) [])
          (cells g - {p \<in> set (iter (cells g)). \<not> surv (live_count g p)})
        = next_gen surv (\<lambda>n. birth (int n)) g"
    unfolding birth_pass_keys [OF d] next_gen_def set_iter [OF fin]
    using tally_births [of g birth, OF fin b0] by auto
  then show ?thesis unfolding loop by simp
qed

lemma next_gen_local:
  assumes b0: "\<not> birth 0"
  shows "local_to g (next_gen surv birth g)"
proof -
  have "\<exists>p\<in>cells g. q \<in> moore p" if "birth (live_count g q)" for q
  proof -
    have "live_count g q \<noteq> 0" using that b0 by (cases "live_count g q = 0") auto
    then have "moore q \<inter> cells g \<noteq> {}" unfolding live_count_def by auto
    then obtain p where "p \<in> moore q" and "p \<in> cells g" by auto
    then show ?thesis using moore_sym [of q p] by auto
  qed
  then show ?thesis unfolding local_to_def next_gen_def by auto
qed

section \<open>The four variants as rules\<close>

lemma update_grid_body_eq: "update_grid_body g = survival_body (\<lambda>n. n \<in> {2, 3}) g"
  unfolding update_grid_body_def survival_body_def by simp

lemma update_grid_births:
  "fold (\<lambda>(pos, _) new_cells. insert (fst pos, snd pos) new_cells)
        (filter (\<lambda>elem. snd elem = 3) ud) nc = birth_pass (\<lambda>c. c = 3) ud nc"
  unfolding birth_pass_def by (induction ud arbitrary: nc) auto

lemma update_grid_next_gen:
  assumes fin: "finite (cells g)"
  shows "update_grid g = Inr \<lparr>dim = dim g, cells = next_gen (\<lambda>n. n \<in> {2, 3}) (\<lambda>n. n = 3) g\<rparr>"
proof -
  have "update_grid g =
      (case for_each (survival_body (\<lambda>n. n \<in> {2, 3}) g) (iter (cells g)) (cells g, []) of
         Inl e \<Rightarrow> Inl e
       | Inr (new_cells, undead) \<Rightarrow>
           Inr \<lparr>dim = dim g, cells = birth_pass (\<lambda>c. c = 3) undead new_cells\<rparr>)"
    unfolding update_grid_def update_grid_body_eq update_grid_births ..
  also have "\<dots> = Inr \<lparr>dim = dim g, cells = next_gen (\<lambda>n. n \<in> {2, 3}) (\<lambda>n. int n = 3) g\<rparr>"
    by (rule rule_update [OF fin]) simp
  finally show ?thesis by simp
qed

lemma update_grid_highlife_body_eq:
  "update_grid_highlife_body g = survival_body (\<lambda>n. n \<in> {2, 3}) g"
  unfolding update_grid_highlife_body_def survival_body_def by simp

lemma update_grid_highlife_next_gen:
  assumes fin: "finite (cells g)"
  shows "update_grid_highlife g
     = Inr \<lparr>dim = dim g, cells = next_gen (\<lambda>n. n \<in> {2, 3}) (\<lambda>n. n \<in> {3, 6}) g\<rparr>"
proof -
  have "update_grid_highlife g =
      (case for_each (survival_body (\<lambda>n. n \<in> {2, 3}) g) (iter (cells g)) (cells g, []) of
         Inl e \<Rightarrow> Inl e
       | Inr (new_cells, undead) \<Rightarrow>
           Inr \<lparr>dim = dim g, cells = birth_pass (\<lambda>c. c \<in> set [3, 6]) undead new_cells\<rparr>)"
    unfolding update_grid_highlife_def update_grid_highlife_body_eq birth_pass_def ..
  also have "\<dots> = Inr \<lparr>dim = dim g,
      cells = next_gen (\<lambda>n. n \<in> {2, 3}) (\<lambda>n. int n \<in> set [3, 6]) g\<rparr>"
    by (rule rule_update [OF fin]) simp
  finally show ?thesis by simp
qed

lemma update_grid_day_night_body_eq:
  "update_grid_day_night_body g = survival_body (\<lambda>n. n \<in> {3, 4, 6, 7, 8}) g"
  unfolding update_grid_day_night_body_def survival_body_def by simp

lemma update_grid_day_night_next_gen:
  assumes fin: "finite (cells g)"
  shows "update_grid_day_night g
     = Inr \<lparr>dim = dim g,
            cells = next_gen (\<lambda>n. n \<in> {3, 4, 6, 7, 8}) (\<lambda>n. n \<in> {3, 6, 7, 8}) g\<rparr>"
proof -
  have "update_grid_day_night g =
      (case for_each (survival_body (\<lambda>n. n \<in> {3, 4, 6, 7, 8}) g) (iter (cells g)) (cells g, []) of
         Inl e \<Rightarrow> Inl e
       | Inr (new_cells, undead) \<Rightarrow>
           Inr \<lparr>dim = dim g, cells = birth_pass (\<lambda>c. c \<in> set [3, 6, 7, 8]) undead new_cells\<rparr>)"
    unfolding update_grid_day_night_def update_grid_day_night_body_eq birth_pass_def ..
  also have "\<dots> = Inr \<lparr>dim = dim g,
      cells = next_gen (\<lambda>n. n \<in> {3, 4, 6, 7, 8}) (\<lambda>n. int n \<in> set [3, 6, 7, 8]) g\<rparr>"
    by (rule rule_update [OF fin]) simp
  finally show ?thesis by simp
qed

lemma seeds_loop: "fold (update_grid_seeds_body g) xs ud = count_pass g xs ud"
proof -
  have "update_grid_seeds_body g = (\<lambda>p. count_dead (moore p - cells g))"
    unfolding update_grid_seeds_body_def by (auto simp: get_neighbours_dead fun_eq_iff)
  then show ?thesis unfolding count_pass_def by simp
qed

lemma update_grid_seeds_next_gen:
  assumes fin: "finite (cells g)"
  shows "update_grid_seeds g
     = \<lparr>dim = dim g, cells = next_gen (\<lambda>n. True) (\<lambda>n. n = 2) g\<rparr>"
proof -
  have d: "distinct (map fst (count_pass g (iter (cells g)) []))"
    by (rule distinct_count_pass) simp
  have b: "birth_pass (\<lambda>c. c = 2) (count_pass g (iter (cells g)) []) (cells g)
          = next_gen (\<lambda>n. True) (\<lambda>n. n = 2) g"
    unfolding birth_pass_keys [OF d] next_gen_def
    using tally_births [of g "\<lambda>c. c = 2", OF fin] by auto
  have "update_grid_seeds g
      = \<lparr>dim = dim g, cells = birth_pass (\<lambda>c. c = 2) (count_pass g (iter (cells g)) []) (cells g)\<rparr>"
    unfolding update_grid_seeds_def seeds_loop Let_def birth_pass_def ..
  then show ?thesis unfolding b .
qed

section \<open>The random grid generator\<close>

lemma generate_random_grid_draw_cell:
  "generate_random_grid d p draws =
     (let (cells, draws') =
            fold (\<lambda>x. fold (draw_cell p x) (py_range (height d))) (py_range (width d)) ({}, draws)
      in (\<lparr>dim = d, cells = cells\<rparr>, draws'))"
  unfolding generate_random_grid_def draw_cell_def ..

lemma unit_draws_shift: "unit_draws dr \<Longrightarrow> unit_draws (\<lambda>n. dr (n + k))"
  unfolding unit_draws_def by simp

lemma draw_cell_never:
  "unit_draws dr \<Longrightarrow> p \<le> 0 \<Longrightarrow> draw_cell p x y (cs, dr) = (cs, \<lambda>n. dr (n + 1))"
proof -
  assume "unit_draws dr" and "p \<le> 0"
  then have "\<not> dr 0 < p" unfolding unit_draws_def by (simp add: not_less order_trans [of p 0])
  then show ?thesis unfolding draw_cell_def random_random_def by simp
qed

lemma draw_cell_always:
  "unit_draws dr \<Longrightarrow> 1 \<le> p \<Longrightarrow> draw_cell p x y (cs, dr) = (insert (x, y) cs, \<lambda>n. dr (n + 1))"
proof -
  assume "unit_draws dr" and "1 \<le> p"
  then have "dr 0 < p" unfolding unit_draws_def by (simp add: less_le_trans [of _ 1 p])
  then show ?thesis unfolding draw_cell_def random_random_def by simp
qed

lemma column_never:
  "unit_draws dr \<Longrightarrow> p \<le> 0 \<Longrightarrow>
   fold (draw_cell p x) ys (cs, dr) = (cs, \<lambda>n. dr (n + length ys))"
proof (induction ys arbitrary: cs dr)
  case Nil
  then show ?case by simp
next
  case (Cons y ys)
  have "unit_draws (\<lambda>n. dr (n + 1))" by (rule unit_draws_shift [OF Cons.prems(1)])
  then show ?case
    using Cons.prems by (simp add: draw_cell_never Cons.IH add.assoc)
qed

lemma column_always:
  "unit_draws dr \<Longrightarrow> 1 \<le> p \<Longrightarrow>
   fold (draw_cell p x) ys (cs, dr) = (cs \<union> {x} \<times> set ys, \<lambda>n. dr (n + length ys))"
proof (induction ys arbitrary: cs dr)
  case Nil
  then show ?case by simp
next
  case (Cons y ys)
  have "unit_draws (\<lambda>n. dr (n + 1))" by (rule unit_draws_shift [OF Cons.prems(1)])
  then show ?case
    using Cons.prems by (simp add: draw_cell_always Cons.IH add.assoc)
qed

lemma rows_never:
  "unit_draws dr \<Longrightarrow> p \<le> 0 \<Longrightarrow>
   fold (\<lambda>x. fold (draw_cell p x) ys) xs (cs, dr) = (cs, \<lambda>n. dr (n + length xs * length ys))"
proof (induction xs arbitrary: cs dr)
  case Nil
  then show ?case by simp
next
  case (Cons x xs)
  have "unit_draws (\<lambda>n. dr (n + length ys))" by (rule unit_draws_shift [OF Cons.prems(1)])
  then show ?case
    using Cons.prems by (simp add: column_never Cons.IH ac_simps)
qed

lemma rows_always:
  "unit_draws dr \<Longrightarrow> 1 \<le> p \<Longrightarrow>
   fold (\<lambda>x. fold (draw_cell p x) ys) xs (cs, dr)
     = (cs \<union> set xs \<times> set ys, \<lambda>n. dr (n + length xs * length ys))"
proof (induction xs arbitrary: cs dr)
  case Nil
  then show ?case by simp
next
  case (Cons x xs)
  have u: "unit_draws (\<lambda>n. dr (n + length ys))" by (rule unit_draws_shift [OF Cons.prems(1)])
  have "cs \<union> {x} \<times> set ys \<union> set xs \<times> set ys = cs \<union> set (x # xs) \<times> set ys"
    by auto
  then show ?case
    using Cons.prems u by (simp add: column_always Cons.IH ac_simps)
qed

lemma set_py_range: "set (py_range n) = {x. 0 \<le> x \<and> x < n}"
  unfolding py_range_def by auto

section \<open>Properties of the specification\<close>

text \<open>
  C1: for every grid (a Python set is finite), update_grid returns a grid whose live cells are
  the live cells of the input with 2 or 3 live Moore neighbours, together with the dead
  positions with exactly 3 live Moore neighbours.
\<close>

theorem update_grid_conway:
  assumes "finite (cells g)"
  shows "\<exists>g'. update_grid g = Inr g' \<and>
           cells g' = {p \<in> cells g. live_count g p \<in> {2, 3}}
                        \<union> {p. p \<notin> cells g \<and> live_count g p = 3}"
  unfolding update_grid_next_gen [OF assms] next_gen_def by simp

theorem update_grid_conway_witness:
  "finite (cells \<lparr>dim = \<lparr>width = 3, height = 3\<rparr>, cells = {(1, 0), (1, 1), (1, 2)}\<rparr>)
   \<and> {p \<in> cells \<lparr>dim = \<lparr>width = 3, height = 3\<rparr>, cells = {(1, 0), (1, 1), (1, 2)}\<rparr>.
         live_count \<lparr>dim = \<lparr>width = 3, height = 3\<rparr>, cells = {(1, 0), (1, 1), (1, 2)}\<rparr> p \<in> {2, 3}}
       \<union> {p. p \<notin> cells \<lparr>dim = \<lparr>width = 3, height = 3\<rparr>, cells = {(1, 0), (1, 1), (1, 2)}\<rparr>
              \<and> live_count \<lparr>dim = \<lparr>width = 3, height = 3\<rparr>, cells = {(1, 0), (1, 1), (1, 2)}\<rparr> p = 3}
     = {(0, 1), (1, 1), (2, 1)}"
proof -
  let ?g = "\<lparr>dim = \<lparr>width = 3, height = 3\<rparr>, cells = {(1, 0), (1, 1), (1, 2)}\<rparr>"
  have run: "update_grid ?g = Inr \<lparr>dim = \<lparr>width = 3, height = 3\<rparr>, cells = {(0, 1), (1, 1), (2, 1)}\<rparr>"
    by code_simp
  have fin: "finite (cells ?g)" by simp
  show ?thesis using update_grid_conway [OF fin] fin unfolding run by simp
qed

text \<open>
  C2: the specification and the docstring of update_grid_seeds say that no live cell of the
  input is live in the result. The loop of update_grid_seeds never removes a cell from the
  copy of the input set: on the grid whose only live cell is (0,0) it returns the same grid,
  with (0,0) still live.
\<close>

theorem seeds_live_cell_survives:
  "update_grid_seeds \<lparr>dim = \<lparr>width = 3, height = 3\<rparr>, cells = {(0, 0)}\<rparr>
     = \<lparr>dim = \<lparr>width = 3, height = 3\<rparr>, cells = {(0, 0)}\<rparr>"
  by code_simp

text \<open>
  C3: for every grid and every coordinate (x,y), the sets alive and dead that get_neighbours
  returns are disjoint, their union is the Moore neighbourhood of (x,y), which has 8 elements,
  their sizes add up to 8, and alive holds exactly the neighbours that are in grid.cells.
\<close>

theorem get_neighbours_partition:
  "alive (get_neighbours g x y) \<inter> dead (get_neighbours g x y) = {}
   \<and> alive (get_neighbours g x y) \<union> dead (get_neighbours g x y) = moore (x, y)
   \<and> card (moore (x, y)) = 8
   \<and> card (alive (get_neighbours g x y)) + card (dead (get_neighbours g x y)) = 8
   \<and> alive (get_neighbours g x y) = {q \<in> moore (x, y). q \<in> cells g}"
proof -
  have disj: "alive (get_neighbours g x y) \<inter> dead (get_neighbours g x y) = {}"
    unfolding get_neighbours_alive get_neighbours_dead by auto
  have un: "alive (get_neighbours g x y) \<union> dead (get_neighbours g x y) = moore (x, y)"
    unfolding get_neighbours_alive get_neighbours_dead by auto
  have fin: "finite (alive (get_neighbours g x y))" "finite (dead (get_neighbours g x y))"
    unfolding get_neighbours_alive get_neighbours_dead by (simp_all add: finite_moore)
  have "card (alive (get_neighbours g x y)) + card (dead (get_neighbours g x y))
          = card (alive (get_neighbours g x y) \<union> dead (get_neighbours g x y))"
    using card_Un_disjoint [OF fin disj] by simp
  then have sum: "card (alive (get_neighbours g x y)) + card (dead (get_neighbours g x y)) = 8"
    unfolding un card_moore .
  have al: "alive (get_neighbours g x y) = {q \<in> moore (x, y). q \<in> cells g}"
    unfolding get_neighbours_alive by auto
  show ?thesis using disj un card_moore [of "(x, y)"] sum al by blast
qed

text \<open>
  C4: each of the four variants maps a grid with no live cell to a grid with no live cell
  (and the same dim).
\<close>

theorem empty_grid_fixed_point:
  "update_grid \<lparr>dim = d, cells = {}\<rparr> = Inr \<lparr>dim = d, cells = {}\<rparr>
   \<and> update_grid_highlife \<lparr>dim = d, cells = {}\<rparr> = Inr \<lparr>dim = d, cells = {}\<rparr>
   \<and> update_grid_day_night \<lparr>dim = d, cells = {}\<rparr> = Inr \<lparr>dim = d, cells = {}\<rparr>
   \<and> update_grid_seeds \<lparr>dim = d, cells = {}\<rparr> = \<lparr>dim = d, cells = {}\<rparr>"
  unfolding update_grid_def update_grid_highlife_def update_grid_day_night_def
    update_grid_seeds_def iter_def
  by simp

text \<open>
  C5: a dead position with exactly 6 live Moore neighbours is live after
  update_grid_highlife and is not live after update_grid, on the same grid.
\<close>

theorem highlife_birth_at_six:
  assumes "finite (cells g)" and "p \<notin> cells g" and "live_count g p = 6"
  shows "(\<exists>h. update_grid_highlife g = Inr h \<and> p \<in> cells h)
         \<and> (\<exists>c. update_grid g = Inr c \<and> p \<notin> cells c)"
  unfolding update_grid_highlife_next_gen [OF assms(1)] update_grid_next_gen [OF assms(1)]
    next_gen_def
  using assms(2,3) by simp

theorem highlife_birth_at_six_witness:
  "finite (cells \<lparr>dim = \<lparr>width = 3, height = 3\<rparr>,
                  cells = {(0, 0), (1, 0), (2, 0), (0, 1), (2, 1), (0, 2)}\<rparr>)
   \<and> (1, 1) \<notin> cells \<lparr>dim = \<lparr>width = 3, height = 3\<rparr>,
                        cells = {(0, 0), (1, 0), (2, 0), (0, 1), (2, 1), (0, 2)}\<rparr>
   \<and> live_count \<lparr>dim = \<lparr>width = 3, height = 3\<rparr>,
                  cells = {(0, 0), (1, 0), (2, 0), (0, 1), (2, 1), (0, 2)}\<rparr> (1, 1) = 6
   \<and> (\<exists>h. update_grid_highlife \<lparr>dim = \<lparr>width = 3, height = 3\<rparr>,
                  cells = {(0, 0), (1, 0), (2, 0), (0, 1), (2, 1), (0, 2)}\<rparr> = Inr h
          \<and> (1, 1) \<in> cells h)
   \<and> (\<exists>c. update_grid \<lparr>dim = \<lparr>width = 3, height = 3\<rparr>,
                  cells = {(0, 0), (1, 0), (2, 0), (0, 1), (2, 1), (0, 2)}\<rparr> = Inr c
          \<and> (1, 1) \<notin> cells c)"
proof -
  let ?g = "\<lparr>dim = \<lparr>width = 3, height = 3\<rparr>,
             cells = {(0, 0), (1, 0), (2, 0), (0, 1), (2, 1), (0, 2)}\<rparr>"
  have fin: "finite (cells ?g)" by simp
  have dead: "(1, 1) \<notin> cells ?g" by simp
  have "card (alive (get_neighbours ?g 1 1)) = 6" by code_simp
  then have six: "live_count ?g (1, 1) = 6" unfolding card_alive .
  show ?thesis using highlife_birth_at_six [OF fin dead six] fin dead six by blast
qed

text \<open>
  C6: update_grid_day_night returns a grid whose live cells are the live cells of the input
  whose live-neighbour count is in {3,4,6,7,8}, together with the dead positions whose
  live-neighbour count is in {3,6,7,8}.
\<close>

theorem update_grid_day_night_rule:
  assumes "finite (cells g)"
  shows "\<exists>g'. update_grid_day_night g = Inr g' \<and>
           cells g' = {p \<in> cells g. live_count g p \<in> {3, 4, 6, 7, 8}}
                        \<union> {p. p \<notin> cells g \<and> live_count g p \<in> {3, 6, 7, 8}}"
  unfolding update_grid_day_night_next_gen [OF assms] next_gen_def by simp

theorem update_grid_day_night_rule_witness:
  "finite (cells \<lparr>dim = \<lparr>width = 3, height = 3\<rparr>,
                  cells = {(0, 0), (1, 0), (2, 0), (0, 1), (2, 1), (0, 2)}\<rparr>)
   \<and> {p \<in> cells \<lparr>dim = \<lparr>width = 3, height = 3\<rparr>,
                   cells = {(0, 0), (1, 0), (2, 0), (0, 1), (2, 1), (0, 2)}\<rparr>.
         live_count \<lparr>dim = \<lparr>width = 3, height = 3\<rparr>,
                     cells = {(0, 0), (1, 0), (2, 0), (0, 1), (2, 1), (0, 2)}\<rparr> p
           \<in> {3, 4, 6, 7, 8}}
       \<union> {p. p \<notin> cells \<lparr>dim = \<lparr>width = 3, height = 3\<rparr>,
                          cells = {(0, 0), (1, 0), (2, 0), (0, 1), (2, 1), (0, 2)}\<rparr>
              \<and> live_count \<lparr>dim = \<lparr>width = 3, height = 3\<rparr>,
                             cells = {(0, 0), (1, 0), (2, 0), (0, 1), (2, 1), (0, 2)}\<rparr> p
                  \<in> {3, 6, 7, 8}}
     = {(1, 2), (1, 1), (1, - 1), (- 1, 1), (1, 0), (0, 1)}"
proof -
  let ?g = "\<lparr>dim = \<lparr>width = 3, height = 3\<rparr>,
             cells = {(0, 0), (1, 0), (2, 0), (0, 1), (2, 1), (0, 2)}\<rparr>"
  have run: "update_grid_day_night ?g
      = Inr \<lparr>dim = \<lparr>width = 3, height = 3\<rparr>,
             cells = {(1, 2), (1, 1), (1, - 1), (- 1, 1), (1, 0), (0, 1)}\<rparr>"
    by code_simp
  have fin: "finite (cells ?g)" by simp
  show ?thesis using update_grid_day_night_rule [OF fin] fin unfolding run by simp
qed

text \<open>
  C7: one update of the vertical blinker {(1,0),(1,1),(1,2)} gives the horizontal blinker
  {(0,1),(1,1),(2,1)}, and a second update gives the vertical blinker back.
\<close>

theorem blinker_period_2:
  "update_grid \<lparr>dim = d, cells = {(1, 0), (1, 1), (1, 2)}\<rparr>
     = Inr \<lparr>dim = d, cells = {(0, 1), (1, 1), (2, 1)}\<rparr>
   \<and> update_grid \<lparr>dim = d, cells = {(0, 1), (1, 1), (2, 1)}\<rparr>
     = Inr \<lparr>dim = d, cells = {(1, 0), (1, 1), (1, 2)}\<rparr>"
  by code_simp

text \<open>
  C8: each of the four variants returns a grid with the dim of its input.
\<close>

theorem update_keeps_dim:
  assumes "finite (cells g)"
  shows "(\<exists>g'. update_grid g = Inr g' \<and> dim g' = dim g)
         \<and> (\<exists>g'. update_grid_highlife g = Inr g' \<and> dim g' = dim g)
         \<and> (\<exists>g'. update_grid_day_night g = Inr g' \<and> dim g' = dim g)
         \<and> dim (update_grid_seeds g) = dim g"
  unfolding update_grid_next_gen [OF assms] update_grid_highlife_next_gen [OF assms]
    update_grid_day_night_next_gen [OF assms] update_grid_seeds_next_gen [OF assms]
  by simp

theorem update_keeps_dim_witness:
  "finite (cells \<lparr>dim = \<lparr>width = 200, height = 200\<rparr>, cells = {(1, 0), (1, 1), (1, 2)}\<rparr>)
   \<and> (\<exists>g'. update_grid \<lparr>dim = \<lparr>width = 200, height = 200\<rparr>, cells = {(1, 0), (1, 1), (1, 2)}\<rparr>
              = Inr g' \<and> dim g' = \<lparr>width = 200, height = 200\<rparr>)
   \<and> (\<exists>g'. update_grid_highlife
               \<lparr>dim = \<lparr>width = 200, height = 200\<rparr>, cells = {(1, 0), (1, 1), (1, 2)}\<rparr>
              = Inr g' \<and> dim g' = \<lparr>width = 200, height = 200\<rparr>)
   \<and> (\<exists>g'. update_grid_day_night
               \<lparr>dim = \<lparr>width = 200, height = 200\<rparr>, cells = {(1, 0), (1, 1), (1, 2)}\<rparr>
              = Inr g' \<and> dim g' = \<lparr>width = 200, height = 200\<rparr>)
   \<and> dim (update_grid_seeds
             \<lparr>dim = \<lparr>width = 200, height = 200\<rparr>, cells = {(1, 0), (1, 1), (1, 2)}\<rparr>)
       = \<lparr>width = 200, height = 200\<rparr>"
proof -
  let ?g = "\<lparr>dim = \<lparr>width = 200, height = 200\<rparr>, cells = {(1, 0), (1, 1), (1, 2)}\<rparr>"
  have fin: "finite (cells ?g)" by simp
  show ?thesis using update_keeps_dim [OF fin] fin by simp
qed

text \<open>
  C9: for a dim with non-negative width and height and draws in [0,1), generate_random_grid
  returns the empty grid when live_cell_probability is at most 0, and the grid of all (x,y)
  with 0 \<le> x < width and 0 \<le> y < height when it is at least 1.
\<close>

theorem generate_random_grid_degenerate:
  assumes "\<forall>n. 0 \<le> draws n \<and> draws n < 1" and "0 \<le> width d" and "0 \<le> height d"
  shows "(p \<le> 0 \<longrightarrow> cells (fst (generate_random_grid d p draws)) = {}) \<and>
         (1 \<le> p \<longrightarrow> cells (fst (generate_random_grid d p draws))
                        = {(x, y). 0 \<le> x \<and> x < width d \<and> 0 \<le> y \<and> y < height d})"
proof -
  have u: "unit_draws draws" using assms(1) unfolding unit_draws_def .
  have "cells (fst (generate_random_grid d p draws)) = {}" if "p \<le> 0"
    unfolding generate_random_grid_draw_cell rows_never [OF u that] by simp
  moreover have "cells (fst (generate_random_grid d p draws))
                   = {(x, y). 0 \<le> x \<and> x < width d \<and> 0 \<le> y \<and> y < height d}" if "1 \<le> p"
    unfolding generate_random_grid_draw_cell rows_always [OF u that] set_py_range by auto
  ultimately show ?thesis by blast
qed

theorem generate_random_grid_degenerate_witness:
  "cells (fst (generate_random_grid \<lparr>width = 2, height = 3\<rparr> 0 (\<lambda>n. 1 / 2))) = {}
   \<and> cells (fst (generate_random_grid \<lparr>width = 2, height = 3\<rparr> 1 (\<lambda>n. 1 / 2)))
       = {(x, y). 0 \<le> x \<and> x < 2 \<and> 0 \<le> y \<and> y < 3}
   \<and> cells (fst (generate_random_grid \<lparr>width = 2, height = 3\<rparr> 1 (\<lambda>n. 1 / 2)))
       = {(0, 0), (0, 1), (0, 2), (1, 0), (1, 1), (1, 2)}"
proof -
  have a: "cells (fst (generate_random_grid \<lparr>width = 2, height = 3\<rparr> 1 (\<lambda>n. 1 / 2)))
       = {(0, 0), (0, 1), (0, 2), (1, 0), (1, 1), (1, 2)}"
    by code_simp
  show ?thesis
  using generate_random_grid_degenerate [of "\<lambda>n. 1 / 2" "\<lparr>width = 2, height = 3\<rparr>" 0]
    generate_random_grid_degenerate [of "\<lambda>n. 1 / 2" "\<lparr>width = 2, height = 3\<rparr>" 1] a
  by simp
qed

text \<open>
  C10: for each of the four variants, every live cell of the result is a live cell of the
  input or a Moore neighbour of a live cell of the input.
\<close>

theorem update_is_local:
  assumes "finite (cells g)"
  shows "(\<exists>g'. update_grid g = Inr g' \<and> local_to g (cells g'))
         \<and> (\<exists>g'. update_grid_highlife g = Inr g' \<and> local_to g (cells g'))
         \<and> (\<exists>g'. update_grid_day_night g = Inr g' \<and> local_to g (cells g'))
         \<and> local_to g (cells (update_grid_seeds g))"
  unfolding update_grid_next_gen [OF assms] update_grid_highlife_next_gen [OF assms]
    update_grid_day_night_next_gen [OF assms] update_grid_seeds_next_gen [OF assms]
  by (simp add: next_gen_local)

theorem update_is_local_witness:
  "finite (cells \<lparr>dim = \<lparr>width = 3, height = 3\<rparr>, cells = {(1, 0), (1, 1), (1, 2)}\<rparr>)
   \<and> (\<exists>g'. update_grid \<lparr>dim = \<lparr>width = 3, height = 3\<rparr>, cells = {(1, 0), (1, 1), (1, 2)}\<rparr>
              = Inr g'
            \<and> local_to \<lparr>dim = \<lparr>width = 3, height = 3\<rparr>, cells = {(1, 0), (1, 1), (1, 2)}\<rparr>
                (cells g'))
   \<and> (\<exists>g'. update_grid_highlife
               \<lparr>dim = \<lparr>width = 3, height = 3\<rparr>, cells = {(1, 0), (1, 1), (1, 2)}\<rparr> = Inr g'
            \<and> local_to \<lparr>dim = \<lparr>width = 3, height = 3\<rparr>, cells = {(1, 0), (1, 1), (1, 2)}\<rparr>
                (cells g'))
   \<and> (\<exists>g'. update_grid_day_night
               \<lparr>dim = \<lparr>width = 3, height = 3\<rparr>, cells = {(1, 0), (1, 1), (1, 2)}\<rparr> = Inr g'
            \<and> local_to \<lparr>dim = \<lparr>width = 3, height = 3\<rparr>, cells = {(1, 0), (1, 1), (1, 2)}\<rparr>
                (cells g'))
   \<and> local_to \<lparr>dim = \<lparr>width = 3, height = 3\<rparr>, cells = {(1, 0), (1, 1), (1, 2)}\<rparr>
        (cells (update_grid_seeds
                 \<lparr>dim = \<lparr>width = 3, height = 3\<rparr>, cells = {(1, 0), (1, 1), (1, 2)}\<rparr>))"
proof -
  let ?g = "\<lparr>dim = \<lparr>width = 3, height = 3\<rparr>, cells = {(1, 0), (1, 1), (1, 2)}\<rparr>"
  have fin: "finite (cells ?g)" by simp
  show ?thesis using update_is_local [OF fin] fin by blast
qed

end
